theory Spec2Isabelle
  imports Complex_Main
begin

section \<open>Arrays\<close>

text \<open>
  The module \<^verbatim>\<open>staticKS.py\<close> works on numpy arrays of floating-point numbers.
  An array is modelled as a nested list, one level of nesting per axis, and a float as a
  real number: the theorems below are statements of real arithmetic about the values the
  arrays hold, not about rounding.

  numpy checks the shapes of its operands when it runs. The model makes that check explicit
  and narrower: every operation first tests that the arrays it reads have the shape the
  configuration prescribes (the shape \<^verbatim>\<open>__init__\<close> allocates) and returns
  \<open>ShapeError\<close> otherwise. \<open>ShapeError\<close> stands for numpy's \<^verbatim>\<open>IndexError\<close> and
  \<^verbatim>\<open>ValueError\<close>. Arrays of another shape that numpy would still accept by
  broadcasting an axis of length one are outside the model.
\<close>

type_synonym arr1 = "real list"
type_synonym arr2 = "real list list"
type_synonym arr3 = "real list list list"
type_synonym arr4 = "real list list list list"

datatype py_error = ShapeError | ExternalError

definition shape1 :: "nat \<Rightarrow> 'a list \<Rightarrow> bool" where
  "shape1 a xs \<longleftrightarrow> length xs = a"

definition shape2 :: "nat \<Rightarrow> nat \<Rightarrow> 'a list list \<Rightarrow> bool" where
  "shape2 a b xs \<longleftrightarrow> length xs = a \<and> list_all (shape1 b) xs"

definition shape3 :: "nat \<Rightarrow> nat \<Rightarrow> nat \<Rightarrow> 'a list list list \<Rightarrow> bool" where
  "shape3 a b c xs \<longleftrightarrow> length xs = a \<and> list_all (shape2 b c) xs"

definition shape4 :: "nat \<Rightarrow> nat \<Rightarrow> nat \<Rightarrow> nat \<Rightarrow> 'a list list list list \<Rightarrow> bool" where
  "shape4 a b c d xs \<longleftrightarrow> length xs = a \<and> list_all (shape3 b c d) xs"

text \<open>\<^verbatim>\<open>np.zeros(shape)\<close> and \<^verbatim>\<open>np.zeros_like(a)\<close>.\<close>

definition zeros1 :: "nat \<Rightarrow> arr1" where
  "zeros1 a = replicate a 0"

definition zeros2 :: "nat \<Rightarrow> nat \<Rightarrow> arr2" where
  "zeros2 a b = replicate a (zeros1 b)"

definition zeros3 :: "nat \<Rightarrow> nat \<Rightarrow> nat \<Rightarrow> arr3" where
  "zeros3 a b c = replicate a (zeros2 b c)"

definition zeros4 :: "nat \<Rightarrow> nat \<Rightarrow> nat \<Rightarrow> nat \<Rightarrow> arr4" where
  "zeros4 a b c d = replicate a (zeros3 b c d)"

definition zeros_like1 :: "arr1 \<Rightarrow> arr1" where
  "zeros_like1 a = map (\<lambda>_. 0) a"

definition zeros_like2 :: "arr2 \<Rightarrow> arr2" where
  "zeros_like2 a = map zeros_like1 a"

definition zeros_like3 :: "arr3 \<Rightarrow> arr3" where
  "zeros_like3 a = map zeros_like2 a"

text \<open>The slice \<^verbatim>\<open>a[:, l]\<close> of a three-axis array, read and assigned.\<close>

definition get_axis1 :: "arr3 \<Rightarrow> nat \<Rightarrow> arr2" where
  "get_axis1 a l = map (\<lambda>plane. plane ! l) a"

definition set_axis1 :: "arr3 \<Rightarrow> nat \<Rightarrow> arr2 \<Rightarrow> arr3" where
  "set_axis1 a l v = map2 (\<lambda>plane row. plane[l := row]) a v"

text \<open>\<^verbatim>\<open>np.where(a < 0, x, y)\<close> on a two-axis array with scalars \<open>x\<close> and \<open>y\<close>.\<close>

definition where_neg :: "arr2 \<Rightarrow> real \<Rightarrow> real \<Rightarrow> arr2" where
  "where_neg a x y = map (map (\<lambda>e. if e < 0 then x else y)) a"

text \<open>The elementwise product of two arrays of one shape.\<close>

definition mul1 :: "arr1 \<Rightarrow> arr1 \<Rightarrow> arr1" where
  "mul1 a b = map2 (*) a b"

definition mul2 :: "arr2 \<Rightarrow> arr2 \<Rightarrow> arr2" where
  "mul2 a b = map2 mul1 a b"

section \<open>The program state\<close>

text \<open>
  The module \<^verbatim>\<open>config\<close> holds the global parameters. Besides the constants of
  \<^verbatim>\<open>config.py\<close> the code of \<^verbatim>\<open>staticKS.py\<close> reads \<^verbatim>\<open>spindims\<close>,
  \<^verbatim>\<open>xgrid\<close>, \<^verbatim>\<open>nele\<close>, \<^verbatim>\<open>beta\<close>, \<^verbatim>\<open>mu\<close> and \<^verbatim>\<open>sph_vol\<close>, which
  other modules store there; \<open>ngrid\<close> is \<^verbatim>\<open>grid_params["ngrid"]\<close>.
\<close>

record config =
  spindims :: nat
  lmax :: nat
  nmax :: nat
  ngrid :: nat
  xgrid :: arr1
  nele :: arr1
  beta :: real
  mu :: arr1
  unbound :: string
  sph_vol :: real

record orbitals =
  eigfuncs :: arr4
  eigvals :: arr3
  occnums :: arr3
  lbound :: arr3

record density =
  rho_bound :: arr2
  rho_unbound :: arr2
  N_bound :: arr1
  N_unbound :: arr1

text \<open>
  The methods read and write the global configuration, an \<^verbatim>\<open>Orbitals\<close> object and a
  \<^verbatim>\<open>Density\<close> object. The three together are the state that is passed through.
\<close>

record world =
  cfg :: config
  orbs :: orbitals
  dens :: density

text \<open>\<^verbatim>\<open>Orbitals.__init__\<close> and \<^verbatim>\<open>Density.__init__\<close>.\<close>

definition Orbitals_init :: "config \<Rightarrow> orbitals" where
  "Orbitals_init c =
     \<lparr>eigfuncs = zeros4 (spindims c) (lmax c) (nmax c) (ngrid c),
      eigvals = zeros3 (spindims c) (lmax c) (nmax c),
      occnums = zeros3 (spindims c) (lmax c) (nmax c),
      lbound = zeros3 (spindims c) (lmax c) (nmax c)\<rparr>"

definition Density_init :: "config \<Rightarrow> density" where
  "Density_init c =
     (let rho = zeros2 (spindims c) (ngrid c); N = zeros1 (spindims c)
      in \<lparr>rho_bound = rho, rho_unbound = zeros_like2 rho,
          N_bound = N, N_unbound = zeros_like1 N\<rparr>)"

section \<open>The external modules\<close>

text \<open>
  \<^verbatim>\<open>numerov.matrix_solve\<close>, \<^verbatim>\<open>mathtools.chem_pot\<close>, \<^verbatim>\<open>mathtools.fermi_dirac\<close>
  and \<^verbatim>\<open>mathtools.fd_int_complete\<close> are not part of the module. They are parameters
  of the model. The solver and the root finder read the configuration and the orbitals and
  may raise; the two Fermi-Dirac functions are functions of three numbers, and
  \<^verbatim>\<open>fermi_dirac\<close> is applied to an array element by element.
\<close>

type_synonym solver = "config \<Rightarrow> orbitals \<Rightarrow> arr2 \<Rightarrow> arr1 \<Rightarrow> py_error + (arr4 \<times> arr3)"
type_synonym root_finder = "config \<Rightarrow> orbitals \<Rightarrow> py_error + arr1"
type_synonym fd_fun = "real \<Rightarrow> real \<Rightarrow> real \<Rightarrow> real"

section \<open>Orbitals\<close>

text \<open>
  \<^verbatim>\<open>make_lbound\<close>: for every \<open>l\<close> below \<open>lmax\<close> the slice \<^verbatim>\<open>lbound[:, l]\<close> is
  overwritten with \<^verbatim>\<open>np.where(eigvals[:, l] < 0, 2 * l + 1.0, 0.0)\<close>.
\<close>

definition make_lbound_loop :: "arr3 \<Rightarrow> nat \<Rightarrow> arr3 \<Rightarrow> arr3" where
  "make_lbound_loop ev k lb =
     fold (\<lambda>l lb. set_axis1 lb l (where_neg (get_axis1 ev l) (2 * real l + 1) 0)) [0..<k] lb"

definition make_lbound :: "world \<Rightarrow> py_error + world" where
  "make_lbound w =
     (let c = cfg w; ob = orbs w in
      if \<not> (shape3 (spindims c) (lmax c) (nmax c) (eigvals ob)
             \<and> shape3 (spindims c) (lmax c) (nmax c) (lbound ob))
      then Inl ShapeError
      else Inr (w\<lparr>orbs := ob\<lparr>lbound := make_lbound_loop (eigvals ob) (lmax c) (lbound ob)\<rparr>\<rparr>))"

text \<open>
  \<^verbatim>\<open>SCF_init\<close>: the bare Coulomb potential is written row by row into a zero array,
  the solver is called with it, the boundedness mask is rebuilt and the chemical potential
  is reset.
\<close>

definition bare_coulomb :: "config \<Rightarrow> real \<Rightarrow> arr2" where
  "bare_coulomb c at_chrg =
     fold (\<lambda>i v_en. v_en[i := map (\<lambda>x. - at_chrg * exp (- x)) (xgrid c)])
       [0..<spindims c] (zeros2 (spindims c) (ngrid c))"

definition SCF_init :: "solver \<Rightarrow> real \<Rightarrow> world \<Rightarrow> py_error + world" where
  "SCF_init matrix_solve at_chrg w =
     (let c = cfg w in
      if length (xgrid c) \<noteq> ngrid c then Inl ShapeError
      else
        (case matrix_solve c (orbs w) (bare_coulomb c at_chrg) (xgrid c) of
           Inl e \<Rightarrow> Inl e
         | Inr (ef, ev) \<Rightarrow>
             (case make_lbound (w\<lparr>orbs := (orbs w)\<lparr>eigfuncs := ef, eigvals := ev\<rparr>\<rparr>) of
                Inl e \<Rightarrow> Inl e
              | Inr w1 \<Rightarrow> Inr (w1\<lparr>cfg := (cfg w1)\<lparr>mu := zeros1 (spindims (cfg w1))\<rparr>\<rparr>))))"

text \<open>
  \<^verbatim>\<open>calc_occnums\<close>: starting from zeros, the plane of every spin channel whose electron
  number is not zero is overwritten with the mask times the Fermi-Dirac weights. The entry
  \<^verbatim>\<open>mu[i]\<close> is read for those channels only.
\<close>

definition calc_occnums_loop :: "fd_fun \<Rightarrow> config \<Rightarrow> orbitals \<Rightarrow> arr1 \<Rightarrow> nat \<Rightarrow> arr3 \<Rightarrow> arr3" where
  "calc_occnums_loop fermi_dirac c ob m k occ =
     fold (\<lambda>i occ.
             if nele c ! i \<noteq> 0
             then occ[i := mul2 (lbound ob ! i)
                                (map (map (\<lambda>e. fermi_dirac e (m ! i) (beta c))) (eigvals ob ! i))]
             else occ)
       [0..<k] occ"

definition calc_occnums :: "fd_fun \<Rightarrow> world \<Rightarrow> arr1 \<Rightarrow> py_error + arr3" where
  "calc_occnums fermi_dirac w m =
     (let c = cfg w; ob = orbs w in
      if \<not> (shape3 (spindims c) (lmax c) (nmax c) (eigvals ob)
             \<and> shape3 (spindims c) (lmax c) (nmax c) (lbound ob)
             \<and> spindims c \<le> length (nele c)
             \<and> list_all (\<lambda>i. nele c ! i = 0 \<or> i < length m) [0..<spindims c])
      then Inl ShapeError
      else Inr (calc_occnums_loop fermi_dirac c ob m (spindims c) (zeros_like3 (eigvals ob))))"

text \<open>
  \<^verbatim>\<open>occupy\<close>: the chemical potential is stored in the configuration, the occupation
  numbers in the orbitals, and the method returns \<^verbatim>\<open>True\<close>.
\<close>

definition occupy :: "root_finder \<Rightarrow> fd_fun \<Rightarrow> world \<Rightarrow> py_error + (world \<times> bool)" where
  "occupy chem_pot fermi_dirac w =
     (case chem_pot (cfg w) (orbs w) of
        Inl e \<Rightarrow> Inl e
      | Inr m \<Rightarrow>
          (let w1 = w\<lparr>cfg := (cfg w)\<lparr>mu := m\<rparr>\<rparr> in
           case calc_occnums fermi_dirac w1 (mu (cfg w1)) of
             Inl e \<Rightarrow> Inl e
           | Inr occ \<Rightarrow> Inr (w1\<lparr>orbs := (orbs w1)\<lparr>occnums := occ\<rparr>\<rparr>, True)))"

section \<open>Density\<close>

text \<open>
  \<^verbatim>\<open>construct_rho_bound\<close>. \<open>orbs_R\<close> is \<^verbatim>\<open>np.exp(-config.xgrid / 2.0) * orbs.eigfuncs\<close>,
  the grid factor multiplied along the last axis; \<open>orbs_R_sq\<close> is its square;
  \<open>einsum_ijk_ijkl_il\<close> is \<^verbatim>\<open>np.einsum("ijk,ijkl->il", a, b)\<close>, whose last axis has the
  length \<open>g\<close> of the grid; \<open>sum_axes12\<close> is \<^verbatim>\<open>np.sum(a, axis=(1, 2))\<close>.
\<close>

definition orbs_R :: "arr1 \<Rightarrow> arr4 \<Rightarrow> arr4" where
  "orbs_R xg ef = map (map (map (mul1 (map (\<lambda>x. exp (- x / 2)) xg)))) ef"

definition orbs_R_sq :: "arr1 \<Rightarrow> arr4 \<Rightarrow> arr4" where
  "orbs_R_sq xg ef = map (map (map (map (\<lambda>v. v\<^sup>2)))) (orbs_R xg ef)"

definition einsum_ijk_ijkl_il :: "nat \<Rightarrow> arr3 \<Rightarrow> arr4 \<Rightarrow> arr2" where
  "einsum_ijk_ijkl_il g a b =
     map2 (\<lambda>a_i b_i.
             map (\<lambda>l. \<Sum>(a_ij, b_ij) \<leftarrow> zip a_i b_i. \<Sum>(a_ijk, b_ijk) \<leftarrow> zip a_ij b_ij. a_ijk * b_ijk ! l)
               [0..<g])
       a b"

definition sum_axes12 :: "arr3 \<Rightarrow> arr1" where
  "sum_axes12 a = map (\<lambda>a_i. \<Sum>a_ij \<leftarrow> a_i. sum_list a_ij) a"

definition construct_rho_bound :: "world \<Rightarrow> py_error + world" where
  "construct_rho_bound w =
     (let c = cfg w; ob = orbs w in
      if \<not> (shape4 (spindims c) (lmax c) (nmax c) (ngrid c) (eigfuncs ob)
             \<and> shape3 (spindims c) (lmax c) (nmax c) (occnums ob)
             \<and> length (xgrid c) = ngrid c)
      then Inl ShapeError
      else Inr (w\<lparr>dens := (dens w)
                  \<lparr>rho_bound := einsum_ijk_ijkl_il (ngrid c) (occnums ob)
                                  (orbs_R_sq (xgrid c) (eigfuncs ob)),
                   N_bound := sum_axes12 (occnums ob)\<rparr>\<rparr>))"

text \<open>
  \<^verbatim>\<open>construct_rho_unbound\<close>. Only the configuration \<^verbatim>\<open>"ideal"\<close> has a branch; the
  loop writes the scalar \<open>n_ub\<close> over row \<open>i\<close> of \<open>rho_unbound\<close> and \<open>n_ub * sph_vol\<close>
  into entry \<open>i\<close> of \<open>N_unbound\<close>. The loop runs over every spin channel and has no test of
  the electron number: \<^verbatim>\<open>mu[i]\<close> is read for the empty channels as well. For an empty
  channel \<open>n_ub\<close> is the product of zero and the library value, which is zero over the reals;
  the floating-point product is not a number when the library returns an infinity.
\<close>

definition n_ub :: "fd_fun \<Rightarrow> config \<Rightarrow> nat \<Rightarrow> real" where
  "n_ub fd_int_complete c i =
     (let prefac = nele c ! i / (sqrt 2 * pi\<^sup>2)
      in prefac * fd_int_complete (mu c ! i) (beta c) 0.5)"

definition rho_unbound_loop :: "fd_fun \<Rightarrow> config \<Rightarrow> nat \<Rightarrow> density \<Rightarrow> density" where
  "rho_unbound_loop fd_int_complete c k d =
     fold (\<lambda>i d.
             d\<lparr>rho_unbound := (rho_unbound d)[i := map (\<lambda>_. n_ub fd_int_complete c i) (rho_unbound d ! i)],
               N_unbound := (N_unbound d)[i := n_ub fd_int_complete c i * sph_vol c]\<rparr>)
       [0..<k] d"

definition construct_rho_unbound :: "fd_fun \<Rightarrow> world \<Rightarrow> py_error + world" where
  "construct_rho_unbound fd_int_complete w =
     (let c = cfg w in
      if unbound c = ''ideal''
      then
        if \<not> (spindims c \<le> length (nele c) \<and> spindims c \<le> length (mu c)
               \<and> spindims c \<le> length (rho_unbound (dens w))
               \<and> spindims c \<le> length (N_unbound (dens w)))
        then Inl ShapeError
        else Inr (w\<lparr>dens := rho_unbound_loop fd_int_complete c (spindims c) (dens w)\<rparr>)
      else Inr w)"

definition construct :: "fd_fun \<Rightarrow> world \<Rightarrow> py_error + world" where
  "construct fd_int_complete w =
     (case construct_rho_bound w of
        Inl e \<Rightarrow> Inl e
      | Inr w1 \<Rightarrow> construct_rho_unbound fd_int_complete w1)"

section \<open>A worked example\<close>

text \<open>
  Two spin channels, two angular momenta, one principal index and one grid point at
  \<open>x = 0\<close>; one electron in the first channel and none in the second. \<open>ex_new\<close> is the
  state right after both objects are created, with a chemical potential left over in the
  configuration. The solver, the root finder and the two Fermi-Dirac functions are fixed
  stand-ins for the external modules: the solver and the root finder return constants,
  \<open>ex_fermi_dirac\<close> is the weight \<open>1 / (exp (\<beta> (\<epsilon> - \<mu>)) + 1)\<close>.
  \<open>ex_solved\<close>, \<open>ex_occupied\<close> and \<open>ex_built\<close> are the states after
  \<^verbatim>\<open>SCF_init\<close>, \<^verbatim>\<open>occupy\<close> and \<^verbatim>\<open>construct\<close>; \<open>ex_stale\<close> carries
  new eigenvalues and the old mask; \<open>ex_unsupported\<close> selects an unbound treatment that
  has no branch, and \<open>ex_switched\<close> does so after a density has been built, with new
  occupation numbers. \<open>ex_chem_pot_short\<close> is a root finder that returns an entry for the
  first channel only, the one that holds an electron, and \<open>ex_short_mu\<close> is the state
  \<^verbatim>\<open>occupy\<close> leaves with it.
\<close>

definition ex_config :: config where
  "ex_config = \<lparr>spindims = 2, lmax = 2, nmax = 1, ngrid = 1, xgrid = [0], nele = [1, 0],
               beta = 1, mu = [2, 2], unbound = ''ideal'', sph_vol = 2\<rparr>"

definition ex_new :: world where
  "ex_new = \<lparr>cfg = ex_config, orbs = Orbitals_init ex_config, dens = Density_init ex_config\<rparr>"

definition ex_matrix_solve :: solver where
  "ex_matrix_solve c ob v_en xg = Inr ([[[[1]], [[2]]], [[[1]], [[1]]]], [[[2], [-1]], [[-3], [0]]])"

definition ex_chem_pot :: root_finder where
  "ex_chem_pot c ob = Inr [-1, 5]"

definition ex_fermi_dirac :: fd_fun where
  "ex_fermi_dirac eps m b = 1 / (exp (b * (eps - m)) + 1)"

definition ex_fd_int_complete :: fd_fun where
  "ex_fd_int_complete m b ord = exp (b * m)"

definition ex_solved :: world where
  "ex_solved =
     \<lparr>cfg = ex_config\<lparr>mu := [0, 0]\<rparr>,
      orbs = \<lparr>eigfuncs = [[[[1]], [[2]]], [[[1]], [[1]]]], eigvals = [[[2], [-1]], [[-3], [0]]],
              occnums = [[[0], [0]], [[0], [0]]], lbound = [[[0], [3]], [[1], [0]]]\<rparr>,
      dens = \<lparr>rho_bound = [[0], [0]], rho_unbound = [[0], [0]], N_bound = [0, 0], N_unbound = [0, 0]\<rparr>\<rparr>"

definition ex_stale :: world where
  "ex_stale = ex_solved\<lparr>orbs := (orbs ex_solved)\<lparr>eigvals := [[[-2], [1]], [[0], [-3]]]\<rparr>\<rparr>"

definition ex_occupied :: world where
  "ex_occupied =
     ex_solved\<lparr>cfg := ex_config\<lparr>mu := [-1, 5]\<rparr>,
               orbs := (orbs ex_solved)\<lparr>occnums := [[[0], [3 / 2]], [[0], [0]]]\<rparr>\<rparr>"

definition ex_built :: world where
  "ex_built =
     ex_occupied\<lparr>dens := \<lparr>rho_bound = [[6], [0]],
                           rho_unbound = [[1 / (sqrt 2 * pi\<^sup>2) * exp (- 1)], [0]],
                           N_bound = [3 / 2, 0],
                           N_unbound = [1 / (sqrt 2 * pi\<^sup>2) * exp (- 1) * 2, 0]\<rparr>\<rparr>"

definition ex_unsupported :: world where
  "ex_unsupported = ex_occupied\<lparr>cfg := (cfg ex_occupied)\<lparr>unbound := ''thomas-fermi''\<rparr>\<rparr>"

definition ex_switched :: world where
  "ex_switched =
     ex_built\<lparr>cfg := (cfg ex_built)\<lparr>unbound := ''thomas-fermi''\<rparr>,
              orbs := (orbs ex_built)\<lparr>occnums := [[[1], [1]], [[0], [0]]]\<rparr>\<rparr>"



lemmas ex_defs = ex_config_def ex_new_def ex_fd_int_complete_def ex_solved_def ex_occupied_def
  Orbitals_init_def Density_init_def
  zeros1_def zeros2_def zeros3_def zeros4_def zeros_like1_def zeros_like2_def zeros_like3_def
  shape1_def shape2_def shape3_def shape4_def

section \<open>Shapes and indexing\<close>

lemma shape2_nth: "shape2 a b xs \<Longrightarrow> i < a \<Longrightarrow> length (xs ! i) = b"
  by (simp add: shape2_def shape1_def list_all_length)

lemma shape3_nth: "shape3 a b c xs \<Longrightarrow> i < a \<Longrightarrow> shape2 b c (xs ! i)"
  by (simp add: shape3_def list_all_length)

lemma shape4_nth: "shape4 a b c d xs \<Longrightarrow> i < a \<Longrightarrow> shape3 b c d (xs ! i)"
  by (simp add: shape4_def list_all_length)

lemma shape2_length: "shape2 a b xs \<Longrightarrow> length xs = a"
  by (simp add: shape2_def)

lemma shape3_length: "shape3 a b c xs \<Longrightarrow> length xs = a"
  by (simp add: shape3_def)

lemma shape4_length: "shape4 a b c d xs \<Longrightarrow> length xs = a"
  by (simp add: shape4_def)

lemma shape2_I: "length xs = a \<Longrightarrow> (\<And>i. i < a \<Longrightarrow> length (xs ! i) = b) \<Longrightarrow> shape2 a b xs"
  by (simp add: shape2_def shape1_def list_all_length)

lemma shape3_I: "length xs = a \<Longrightarrow> (\<And>i. i < a \<Longrightarrow> shape2 b c (xs ! i)) \<Longrightarrow> shape3 a b c xs"
  by (simp add: shape3_def list_all_length)

lemma shape2_zeros2: "shape2 a b (zeros2 a b)"
  by (simp add: shape2_def shape1_def zeros2_def zeros1_def list_all_length)

lemma shape3_zeros3: "shape3 a b c (zeros3 a b c)"
  by (simp add: shape3_def zeros3_def list_all_length shape2_zeros2)

lemma shape4_zeros4: "shape4 a b c d (zeros4 a b c d)"
  by (simp add: shape4_def zeros4_def list_all_length shape3_zeros3)


section \<open>The boundedness mask\<close>

lemma set_axis1_nth:
  "length v = length a \<Longrightarrow> s < length a \<Longrightarrow> set_axis1 a l v ! s = (a ! s)[l := v ! s]"
  by (simp add: set_axis1_def)

lemma shape3_set_axis1:
  assumes "shape3 S L N a" and "shape2 S N v"
  shows "shape3 S L N (set_axis1 a l v)"
proof (rule shape3_I)
  show "length (set_axis1 a l v) = S"
    using assms by (simp add: set_axis1_def shape3_length shape2_length)
next
  fix i assume i: "i < S"
  have la: "length a = S" and lv: "length v = S"
    using assms by (simp_all add: shape3_length shape2_length)
  have eq: "set_axis1 a l v ! i = (a ! i)[l := v ! i]"
    using i la lv by (simp add: set_axis1_nth)
  have "shape2 L N (a ! i)" using assms(1) i by (rule shape3_nth)
  moreover have "length (v ! i) = N" using assms(2) i by (rule shape2_nth)
  ultimately show "shape2 L N (set_axis1 a l v ! i)"
    unfolding eq
    by (cases "l < length (a ! i)")
       (auto simp: shape2_def shape1_def list_all_length nth_list_update)
qed

lemma shape2_where_neg_get_axis1:
  assumes "shape3 S L N ev" and "l < L"
  shows "shape2 S N (where_neg (get_axis1 ev l) x y)"
proof (rule shape2_I)
  show "length (where_neg (get_axis1 ev l) x y) = S"
    using assms by (simp add: where_neg_def get_axis1_def shape3_length)
next
  fix i assume i: "i < S"
  have "length (ev ! i ! l) = N"
    using shape2_nth [OF shape3_nth [OF assms(1) i] assms(2)] .
  then show "length (where_neg (get_axis1 ev l) x y ! i) = N"
    using i assms by (simp add: where_neg_def get_axis1_def shape3_length)
qed

lemma where_neg_get_axis1_nth:
  assumes "shape3 S L N ev" and "l < L" and "s < S" and "n < N"
  shows "where_neg (get_axis1 ev l) x y ! s ! n = (if ev ! s ! l ! n < 0 then x else y)"
proof -
  have "length (ev ! s ! l) = N"
    using shape2_nth [OF shape3_nth [OF assms(1) assms(3)] assms(2)] .
  then show ?thesis
    using assms by (simp add: where_neg_def get_axis1_def shape3_length)
qed

lemma make_lbound_loop_Suc:
  "make_lbound_loop ev (Suc k) lb =
     set_axis1 (make_lbound_loop ev k lb) k (where_neg (get_axis1 ev k) (2 * real k + 1) 0)"
  by (simp add: make_lbound_loop_def)

lemma make_lbound_loop_shape:
  assumes "shape3 S L N ev" and "shape3 S L N lb"
  shows "k \<le> L \<Longrightarrow> shape3 S L N (make_lbound_loop ev k lb)"
proof (induction k)
  case 0
  show ?case using assms(2) by (simp add: make_lbound_loop_def)
next
  case (Suc k)
  then have "shape3 S L N (make_lbound_loop ev k lb)" and "k < L" by simp_all
  then show ?case
    unfolding make_lbound_loop_Suc
    by (intro shape3_set_axis1 shape2_where_neg_get_axis1 [OF assms(1)])
qed

lemma make_lbound_loop_nth:
  assumes ev: "shape3 S L N ev" and lb: "shape3 S L N lb"
    and s: "s < S" and l: "l < L" and n: "n < N"
  shows "k \<le> L \<Longrightarrow>
    make_lbound_loop ev k lb ! s ! l ! n =
      (if l < k then (if ev ! s ! l ! n < 0 then 2 * real l + 1 else 0) else lb ! s ! l ! n)"
proof (induction k)
  case 0
  show ?case by (simp add: make_lbound_loop_def)
next
  case (Suc k)
  let ?prev = "make_lbound_loop ev k lb"
  let ?v = "where_neg (get_axis1 ev k) (2 * real k + 1) 0"
  from Suc.prems have k: "k < L" by simp
  have sh: "shape3 S L N ?prev"
    using make_lbound_loop_shape [OF ev lb] k by simp
  have shv: "shape2 S N ?v"
    using shape2_where_neg_get_axis1 [OF ev k] .
  have lens: "length ?v = length ?prev" "s < length ?prev"
    using sh shv s by (simp_all add: shape3_length shape2_length)
  have lp: "length (?prev ! s) = L"
    using shape3_nth [OF sh s] by (simp add: shape2_length)
  have step: "make_lbound_loop ev (Suc k) lb ! s = (?prev ! s)[k := ?v ! s]"
    unfolding make_lbound_loop_Suc using lens by (rule set_axis1_nth)
  show ?case
  proof (cases "l = k")
    case True
    then show ?thesis
      using step lp k where_neg_get_axis1_nth [OF ev k s n] by simp
  next
    case False
    then show ?thesis
      using step Suc.IH k by (auto simp: less_Suc_eq)
  qed
qed

lemma make_lbound_returns:
  assumes "shape3 (spindims (cfg w)) (lmax (cfg w)) (nmax (cfg w)) (eigvals (orbs w))"
    and "shape3 (spindims (cfg w)) (lmax (cfg w)) (nmax (cfg w)) (lbound (orbs w))"
  shows "make_lbound w =
     Inr (w\<lparr>orbs := (orbs w)\<lparr>lbound := make_lbound_loop (eigvals (orbs w)) (lmax (cfg w)) (lbound (orbs w))\<rparr>\<rparr>)"
  using assms by (simp add: make_lbound_def Let_def)

text \<open>
  C5: after \<^verbatim>\<open>make_lbound\<close>, on eigenvalues and a mask of the configured shape, the
  mask entry of every spin channel \<open>s\<close>, angular momentum \<open>l\<close> and principal index \<open>n\<close> is
  \<open>2 l + 1\<close> where the eigenvalue is strictly negative and \<open>0\<close> where it is zero or
  positive; nothing else of the state changes.
\<close>

theorem make_lbound_mask:
  assumes "shape3 (spindims (cfg w)) (lmax (cfg w)) (nmax (cfg w)) (eigvals (orbs w))"
    and "shape3 (spindims (cfg w)) (lmax (cfg w)) (nmax (cfg w)) (lbound (orbs w))"
  shows "\<exists>lb. make_lbound w = Inr (w\<lparr>orbs := (orbs w)\<lparr>lbound := lb\<rparr>\<rparr>)
           \<and> (\<forall>s<spindims (cfg w). \<forall>l<lmax (cfg w). \<forall>n<nmax (cfg w).
                 lb ! s ! l ! n = (if eigvals (orbs w) ! s ! l ! n < 0 then 2 * real l + 1 else 0))"
proof -
  let ?lb = "make_lbound_loop (eigvals (orbs w)) (lmax (cfg w)) (lbound (orbs w))"
  have "make_lbound w = Inr (w\<lparr>orbs := (orbs w)\<lparr>lbound := ?lb\<rparr>\<rparr>)"
    using assms by (rule make_lbound_returns)
  moreover have "?lb ! s ! l ! n = (if eigvals (orbs w) ! s ! l ! n < 0 then 2 * real l + 1 else 0)"
    if "s < spindims (cfg w)" "l < lmax (cfg w)" "n < nmax (cfg w)" for s l n
    using make_lbound_loop_nth [OF assms that, of "lmax (cfg w)"] that by simp
  ultimately show ?thesis by blast
qed

text \<open>
  In the example the eigenvalues \<open>-2, 1\<close> (first channel) and \<open>0, -3\<close> (second channel)
  replace the stale mask \<open>0, 3, 1, 0\<close> by \<open>1, 0, 0, 3\<close>.
\<close>

theorem make_lbound_mask_witness:
  "\<exists>lb. make_lbound ex_stale = Inr (ex_stale\<lparr>orbs := (orbs ex_stale)\<lparr>lbound := lb\<rparr>\<rparr>)
      \<and> lb ! 0 ! 0 ! 0 = 1 \<and> lb ! 0 ! 1 ! 0 = 0 \<and> lb ! 1 ! 0 ! 0 = 0 \<and> lb ! 1 ! 1 ! 0 = 3"
proof -
  have h: "shape3 (spindims (cfg ex_stale)) (lmax (cfg ex_stale)) (nmax (cfg ex_stale)) (eigvals (orbs ex_stale))"
    "shape3 (spindims (cfg ex_stale)) (lmax (cfg ex_stale)) (nmax (cfg ex_stale)) (lbound (orbs ex_stale))"
    by (simp_all add: ex_stale_def ex_defs)
  from make_lbound_mask [OF h] obtain lb where
    r: "make_lbound ex_stale = Inr (ex_stale\<lparr>orbs := (orbs ex_stale)\<lparr>lbound := lb\<rparr>\<rparr>)"
    and v: "\<And>s l n. s < 2 \<Longrightarrow> l < 2 \<Longrightarrow> n < 1 \<Longrightarrow>
              lb ! s ! l ! n = (if [[[-2], [1]], [[0], [-3::real]]] ! s ! l ! n < 0 then 2 * real l + 1 else 0)"
    by (auto simp: ex_stale_def ex_solved_def ex_config_def)
  have "lb ! 0 ! 0 ! 0 = 1" "lb ! 0 ! 1 ! 0 = 0" "lb ! 1 ! 0 ! 0 = 0" "lb ! 1 ! 1 ! 0 = 3"
    using v [of 0 0 0] v [of 0 1 0] v [of 1 0 0] v [of 1 1 0] by simp_all
  with r show ?thesis by blast
qed

section \<open>Initialisation\<close>

lemma bare_coulomb_row:
  "s < length v \<Longrightarrow>
   fold (\<lambda>i v_en. v_en[i := r]) [0..<k] v ! s = (if s < k then r else v ! s)"
  "length (fold (\<lambda>i v_en. v_en[i := r]) [0..<k] v) = length v"
  by (induction k) (auto simp: nth_list_update less_Suc_eq)

lemma bare_coulomb_nth:
  assumes "s < spindims c" and "i < length (xgrid c)"
  shows "bare_coulomb c Z ! s ! i = - Z * exp (- (xgrid c ! i))"
  using assms by (simp add: bare_coulomb_def bare_coulomb_row zeros2_def)

lemma shape2_bare_coulomb:
  "shape2 (spindims c) (length (xgrid c)) (bare_coulomb c Z)"
proof (rule shape2_I)
  show "length (bare_coulomb c Z) = spindims c"
    by (simp add: bare_coulomb_def bare_coulomb_row zeros2_def)
next
  fix i assume "i < spindims c"
  then show "length (bare_coulomb c Z ! i) = length (xgrid c)"
    by (simp add: bare_coulomb_def bare_coulomb_row zeros2_def)
qed

text \<open>
  C7: \<^verbatim>\<open>SCF_init\<close> with nuclear charge \<open>Z\<close> builds the potential
  \<open>V[s, i] = - Z exp (- x\<^sub>i)\<close>, the same for every spin channel. When the solver, called with
  that potential and the grid, returns eigenfunctions and eigenvalues (of the configured
  shape), the method stores both, rebuilds the boundedness mask from the new eigenvalues and
  resets the chemical potential to the zero vector of length \<open>spindims\<close>.
\<close>

theorem SCF_init_bare_coulomb:
  assumes xg: "length (xgrid (cfg w)) = ngrid (cfg w)"
    and sol: "matrix_solve (cfg w) (orbs w) (bare_coulomb (cfg w) Z) (xgrid (cfg w)) = Inr (ef, ev)"
    and ev: "shape3 (spindims (cfg w)) (lmax (cfg w)) (nmax (cfg w)) ev"
    and lb: "shape3 (spindims (cfg w)) (lmax (cfg w)) (nmax (cfg w)) (lbound (orbs w))"
  shows "shape2 (spindims (cfg w)) (ngrid (cfg w)) (bare_coulomb (cfg w) Z)
       \<and> (\<forall>s<spindims (cfg w). \<forall>i<ngrid (cfg w).
             bare_coulomb (cfg w) Z ! s ! i = - Z * exp (- (xgrid (cfg w) ! i)))
       \<and> (\<exists>lb'. SCF_init matrix_solve Z w =
                   Inr (w\<lparr>cfg := (cfg w)\<lparr>mu := replicate (spindims (cfg w)) 0\<rparr>,
                          orbs := (orbs w)\<lparr>eigfuncs := ef, eigvals := ev, lbound := lb'\<rparr>\<rparr>)
             \<and> (\<forall>s<spindims (cfg w). \<forall>l<lmax (cfg w). \<forall>n<nmax (cfg w).
                   lb' ! s ! l ! n = (if ev ! s ! l ! n < 0 then 2 * real l + 1 else 0)))"
proof -
  let ?w2 = "w\<lparr>orbs := (orbs w)\<lparr>eigfuncs := ef, eigvals := ev\<rparr>\<rparr>"
  let ?lb = "make_lbound_loop ev (lmax (cfg w)) (lbound (orbs w))"
  have "make_lbound ?w2 = Inr (?w2\<lparr>orbs := (orbs ?w2)\<lparr>lbound := ?lb\<rparr>\<rparr>)"
    using make_lbound_returns [of ?w2] ev lb by simp
  then have "SCF_init matrix_solve Z w =
      Inr (w\<lparr>cfg := (cfg w)\<lparr>mu := replicate (spindims (cfg w)) 0\<rparr>,
             orbs := (orbs w)\<lparr>eigfuncs := ef, eigvals := ev, lbound := ?lb\<rparr>\<rparr>)"
    using xg sol by (simp add: SCF_init_def Let_def zeros1_def)
  moreover have "?lb ! s ! l ! n = (if ev ! s ! l ! n < 0 then 2 * real l + 1 else 0)"
    if "s < spindims (cfg w)" "l < lmax (cfg w)" "n < nmax (cfg w)" for s l n
    using make_lbound_loop_nth [OF ev lb that, of "lmax (cfg w)"] that by simp
  moreover have "shape2 (spindims (cfg w)) (ngrid (cfg w)) (bare_coulomb (cfg w) Z)"
    using shape2_bare_coulomb [of "cfg w" Z] xg by simp
  moreover have "bare_coulomb (cfg w) Z ! s ! i = - Z * exp (- (xgrid (cfg w) ! i))"
    if "s < spindims (cfg w)" "i < ngrid (cfg w)" for s i
    using that xg by (simp add: bare_coulomb_nth)
  ultimately show ?thesis by blast
qed

text \<open>
  In the example, with \<open>Z = 1\<close> and the grid point \<open>x = 0\<close>, the potential is \<open>-1\<close> in both
  channels, the left-over chemical potential \<open>2, 2\<close> becomes \<open>0, 0\<close> and the mask of the
  eigenvalues \<open>2, -1\<close> and \<open>-3, 0\<close> is \<open>0, 3\<close> and \<open>1, 0\<close>.
\<close>

theorem SCF_init_bare_coulomb_witness:
  "bare_coulomb ex_config 1 ! 0 ! 0 = - 1 \<and> bare_coulomb ex_config 1 ! 1 ! 0 = - 1
   \<and> (\<exists>lb'. SCF_init ex_matrix_solve 1 ex_new =
               Inr (ex_new\<lparr>cfg := ex_config\<lparr>mu := [0, 0]\<rparr>,
                           orbs := (orbs ex_new)\<lparr>eigfuncs := [[[[1]], [[2]]], [[[1]], [[1]]]],
                                                  eigvals := [[[2], [-1]], [[-3], [0]]],
                                                  lbound := lb'\<rparr>\<rparr>)
         \<and> lb' ! 0 ! 0 ! 0 = 0 \<and> lb' ! 0 ! 1 ! 0 = 3 \<and> lb' ! 1 ! 0 ! 0 = 1 \<and> lb' ! 1 ! 1 ! 0 = 0)"
proof -
  have h: "length (xgrid (cfg ex_new)) = ngrid (cfg ex_new)"
    "ex_matrix_solve (cfg ex_new) (orbs ex_new) (bare_coulomb (cfg ex_new) 1) (xgrid (cfg ex_new))
       = Inr ([[[[1]], [[2]]], [[[1]], [[1]]]], [[[2], [-1]], [[-3], [0]]])"
    "shape3 (spindims (cfg ex_new)) (lmax (cfg ex_new)) (nmax (cfg ex_new)) [[[2], [-1]], [[-3], [0::real]]]"
    "shape3 (spindims (cfg ex_new)) (lmax (cfg ex_new)) (nmax (cfg ex_new)) (lbound (orbs ex_new))"
    by (simp_all add: ex_matrix_solve_def ex_defs eval_nat_numeral)
  from SCF_init_bare_coulomb [where matrix_solve = ex_matrix_solve and w = ex_new, OF h]
  have pot: "\<And>s i. s < 2 \<Longrightarrow> i < 1 \<Longrightarrow> bare_coulomb ex_config 1 ! s ! i = - 1 * exp (- ([0] ! i))"
    by (simp add: ex_defs)
  from SCF_init_bare_coulomb [where matrix_solve = ex_matrix_solve and w = ex_new, OF h] obtain lb' where
    r: "SCF_init ex_matrix_solve 1 ex_new =
          Inr (ex_new\<lparr>cfg := ex_config\<lparr>mu := [0, 0]\<rparr>,
                      orbs := (orbs ex_new)\<lparr>eigfuncs := [[[[1]], [[2]]], [[[1]], [[1]]]],
                                             eigvals := [[[2], [-1]], [[-3], [0]]],
                                             lbound := lb'\<rparr>\<rparr>)"
    and v: "\<And>s l n. s < 2 \<Longrightarrow> l < 2 \<Longrightarrow> n < 1 \<Longrightarrow>
              lb' ! s ! l ! n = (if [[[2], [-1]], [[-3], [0::real]]] ! s ! l ! n < 0 then 2 * real l + 1 else 0)"
    by (auto simp: ex_defs eval_nat_numeral)
  have "lb' ! 0 ! 0 ! 0 = 0" "lb' ! 0 ! 1 ! 0 = 3" "lb' ! 1 ! 0 ! 0 = 1" "lb' ! 1 ! 1 ! 0 = 0"
    using v [of 0 0 0] v [of 0 1 0] v [of 1 0 0] v [of 1 1 0] by simp_all
  moreover have "bare_coulomb ex_config 1 ! 0 ! 0 = - 1" "bare_coulomb ex_config 1 ! 1 ! 0 = - 1"
    using pot [of 0 0] pot [of 1 0] by simp_all
  ultimately show ?thesis using r by blast
qed

section \<open>Occupation numbers\<close>

lemma mul2_nth:
  assumes "shape2 L N a" and "shape2 L N b" and "l < L" and "n < N"
  shows "mul2 a b ! l ! n = a ! l ! n * b ! l ! n"
proof -
  have "length a = L" "length b = L" "length (a ! l) = N" "length (b ! l) = N"
    using assms by (simp_all add: shape2_length shape2_nth)
  then show ?thesis using assms(3,4) by (simp add: mul2_def mul1_def)
qed

lemma zeros_like3_nth:
  assumes "shape3 S L N a" and "s < S" and "l < L" and "n < N"
  shows "zeros_like3 a ! s ! l ! n = 0"
proof -
  have "length a = S" using assms(1) by (rule shape3_length)
  moreover have "length (a ! s) = L"
    using shape3_nth [OF assms(1,2)] by (rule shape2_length)
  moreover have "length (a ! s ! l) = N"
    using shape2_nth [OF shape3_nth [OF assms(1,2)] assms(3)] .
  ultimately show ?thesis
    using assms(2-4) by (simp add: zeros_like3_def zeros_like2_def zeros_like1_def)
qed

lemma calc_occnums_loop_length:
  "length (calc_occnums_loop fd c ob m k occ) = length occ"
  by (induction k) (simp_all add: calc_occnums_loop_def)

lemma calc_occnums_loop_plane:
  "s < length occ \<Longrightarrow>
   calc_occnums_loop fd c ob m k occ ! s =
     (if s < k \<and> nele c ! s \<noteq> 0
      then mul2 (lbound ob ! s) (map (map (\<lambda>e. fd e (m ! s) (beta c))) (eigvals ob ! s))
      else occ ! s)"
proof (induction k)
  case 0
  show ?case by (simp add: calc_occnums_loop_def)
next
  case (Suc k)
  have unfold: "calc_occnums_loop fd c ob m (Suc k) occ =
      (let prev = calc_occnums_loop fd c ob m k occ in
       if nele c ! k \<noteq> 0
       then prev[k := mul2 (lbound ob ! k) (map (map (\<lambda>e. fd e (m ! k) (beta c))) (eigvals ob ! k))]
       else prev)"
    by (simp add: calc_occnums_loop_def)
  show ?case
    using Suc calc_occnums_loop_length [of fd c ob m k occ]
    by (auto simp: unfold Let_def nth_list_update less_Suc_eq)
qed

lemma fd_plane_shape:
  assumes "shape2 L N a"
  shows "shape2 L N (map (map f) a)"
  using assms by (simp add: shape2_def shape1_def list_all_length)

lemma fd_plane_nth:
  assumes "shape2 L N a" and "l < L" and "n < N"
  shows "map (map f) a ! l ! n = f (a ! l ! n)"
  using assms by (simp add: shape2_def shape1_def list_all_length)

lemma calc_occnums_loop_nth:
  assumes ev: "shape3 S L N (eigvals ob)" and lb: "shape3 S L N (lbound ob)"
    and s: "s < S" and l: "l < L" and n: "n < N"
  shows "calc_occnums_loop fd c ob m S (zeros_like3 (eigvals ob)) ! s ! l ! n =
     (if nele c ! s \<noteq> 0
      then lbound ob ! s ! l ! n * fd (eigvals ob ! s ! l ! n) (m ! s) (beta c)
      else 0)"
proof -
  have len: "s < length (zeros_like3 (eigvals ob))"
    using ev s by (simp add: zeros_like3_def shape3_length)
  note pl = calc_occnums_loop_plane [OF len, of fd c ob m S]
  show ?thesis
  proof (cases "nele c ! s = 0")
    case True
    then show ?thesis
      using pl zeros_like3_nth [OF ev s l n] by simp
  next
    case False
    let ?f = "\<lambda>e. fd e (m ! s) (beta c)"
    have "map (map ?f) (eigvals ob ! s) ! l ! n = ?f (eigvals ob ! s ! l ! n)"
      using shape3_nth [OF ev s] l n by (rule fd_plane_nth)
    moreover have "mul2 (lbound ob ! s) (map (map ?f) (eigvals ob ! s)) ! l ! n
        = lbound ob ! s ! l ! n * map (map ?f) (eigvals ob ! s) ! l ! n"
      using shape3_nth [OF lb s] fd_plane_shape [OF shape3_nth [OF ev s]] l n by (rule mul2_nth)
    ultimately have "mul2 (lbound ob ! s) (map (map ?f) (eigvals ob ! s)) ! l ! n
        = lbound ob ! s ! l ! n * fd (eigvals ob ! s ! l ! n) (m ! s) (beta c)"
      by simp
    then show ?thesis using False pl s by simp
  qed
qed

lemma calc_occnums_returns:
  assumes "shape3 (spindims (cfg w)) (lmax (cfg w)) (nmax (cfg w)) (eigvals (orbs w))"
    and "shape3 (spindims (cfg w)) (lmax (cfg w)) (nmax (cfg w)) (lbound (orbs w))"
    and "spindims (cfg w) \<le> length (nele (cfg w))"
    and "\<forall>i<spindims (cfg w). nele (cfg w) ! i = 0 \<or> i < length m"
  shows "calc_occnums fd w m =
     Inr (calc_occnums_loop fd (cfg w) (orbs w) m (spindims (cfg w)) (zeros_like3 (eigvals (orbs w))))"
  using assms by (simp add: calc_occnums_def Let_def list_all_iff)

text \<open>
  C3: when the root finder returns the chemical potential \<open>m\<close>, \<^verbatim>\<open>occupy\<close> stores it,
  returns \<^verbatim>\<open>True\<close> and leaves occupation numbers with, for every spin channel \<open>s\<close>
  whose electron number is not zero and every \<open>(l, n)\<close>,
  \<open>occnums[s, l, n] = lbound[s, l, n] * fermi_dirac (eigvals[s, l, n], m[s], beta)\<close>,
  and \<open>occnums[s, l, n] = 0\<close> for every channel whose electron number is zero, whatever the
  eigenvalues are.
\<close>

theorem occupy_occnums:
  assumes ev: "shape3 (spindims (cfg w)) (lmax (cfg w)) (nmax (cfg w)) (eigvals (orbs w))"
    and lb: "shape3 (spindims (cfg w)) (lmax (cfg w)) (nmax (cfg w)) (lbound (orbs w))"
    and ne: "spindims (cfg w) \<le> length (nele (cfg w))"
    and cp: "chem_pot (cfg w) (orbs w) = Inr m"
    and mu: "\<forall>i<spindims (cfg w). nele (cfg w) ! i = 0 \<or> i < length m"
  shows "\<exists>occ. occupy chem_pot fermi_dirac w =
             Inr (w\<lparr>cfg := (cfg w)\<lparr>mu := m\<rparr>, orbs := (orbs w)\<lparr>occnums := occ\<rparr>\<rparr>, True)
           \<and> (\<forall>s<spindims (cfg w). \<forall>l<lmax (cfg w). \<forall>n<nmax (cfg w).
                 occ ! s ! l ! n =
                   (if nele (cfg w) ! s \<noteq> 0
                    then lbound (orbs w) ! s ! l ! n
                           * fermi_dirac (eigvals (orbs w) ! s ! l ! n) (m ! s) (beta (cfg w))
                    else 0))"
proof -
  let ?w1 = "w\<lparr>cfg := (cfg w)\<lparr>mu := m\<rparr>\<rparr>"
  let ?occ = "calc_occnums_loop fermi_dirac (cfg ?w1) (orbs ?w1) m (spindims (cfg ?w1))
                (zeros_like3 (eigvals (orbs ?w1)))"
  have "calc_occnums fermi_dirac ?w1 m = Inr ?occ"
    by (rule calc_occnums_returns) (use ev lb ne mu in simp_all)
  then have "occupy chem_pot fermi_dirac w = Inr (?w1\<lparr>orbs := (orbs ?w1)\<lparr>occnums := ?occ\<rparr>\<rparr>, True)"
    using cp by (simp add: occupy_def Let_def)
  moreover have "?occ ! s ! l ! n =
      (if nele (cfg w) ! s \<noteq> 0
       then lbound (orbs w) ! s ! l ! n * fermi_dirac (eigvals (orbs w) ! s ! l ! n) (m ! s) (beta (cfg w))
       else 0)"
    if "s < spindims (cfg w)" "l < lmax (cfg w)" "n < nmax (cfg w)" for s l n
    using calc_occnums_loop_nth [OF ev lb that, of fermi_dirac "cfg ?w1" m] by simp
  ultimately show ?thesis by auto
qed

text \<open>
  In the example the first channel holds one electron and the second none. With the
  chemical potential \<open>-1\<close> the state of eigenvalue \<open>-1\<close> and mask \<open>3\<close> gets
  \<open>3 * 1 / 2\<close>; the second channel stays zero although its first state is bound.
\<close>

theorem occupy_occnums_witness:
  "\<exists>occ. occupy ex_chem_pot ex_fermi_dirac ex_solved =
           Inr (ex_solved\<lparr>cfg := (cfg ex_solved)\<lparr>mu := [-1, 5]\<rparr>,
                          orbs := (orbs ex_solved)\<lparr>occnums := occ\<rparr>\<rparr>, True)
         \<and> occ ! 0 ! 0 ! 0 = 0 \<and> occ ! 0 ! 1 ! 0 = 3 / 2 \<and> occ ! 1 ! 0 ! 0 = 0 \<and> occ ! 1 ! 1 ! 0 = 0"
proof -
  have h: "shape3 (spindims (cfg ex_solved)) (lmax (cfg ex_solved)) (nmax (cfg ex_solved)) (eigvals (orbs ex_solved))"
    "shape3 (spindims (cfg ex_solved)) (lmax (cfg ex_solved)) (nmax (cfg ex_solved)) (lbound (orbs ex_solved))"
    "spindims (cfg ex_solved) \<le> length (nele (cfg ex_solved))"
    "ex_chem_pot (cfg ex_solved) (orbs ex_solved) = Inr [-1, 5]"
    "\<forall>i<spindims (cfg ex_solved). nele (cfg ex_solved) ! i = 0 \<or> i < length [-1, 5::real]"
    by (simp_all add: ex_chem_pot_def ex_defs)
  from occupy_occnums [where chem_pot = ex_chem_pot and fermi_dirac = ex_fermi_dirac and w = ex_solved, OF h]
  obtain occ where
    r: "occupy ex_chem_pot ex_fermi_dirac ex_solved =
          Inr (ex_solved\<lparr>cfg := (cfg ex_solved)\<lparr>mu := [-1, 5]\<rparr>,
                         orbs := (orbs ex_solved)\<lparr>occnums := occ\<rparr>\<rparr>, True)"
    and v: "\<And>s l n. s < 2 \<Longrightarrow> l < 2 \<Longrightarrow> n < 1 \<Longrightarrow>
              occ ! s ! l ! n =
                (if [1, 0::real] ! s \<noteq> 0
                 then [[[0], [3]], [[1], [0::real]]] ! s ! l ! n
                        * ex_fermi_dirac ([[[2], [-1]], [[-3], [0::real]]] ! s ! l ! n) ([-1, 5] ! s) 1
                 else 0)"
    by (auto simp: ex_solved_def ex_config_def)
  have "occ ! 0 ! 0 ! 0 = 0" "occ ! 0 ! 1 ! 0 = 3 / 2" "occ ! 1 ! 0 ! 0 = 0" "occ ! 1 ! 1 ! 0 = 0"
    using v [of 0 0 0] v [of 0 1 0] v [of 1 0 0] v [of 1 1 0] by (simp_all add: ex_fermi_dirac_def)
  with r show ?thesis by blast
qed

section \<open>The bound density\<close>

lemma sum_list_nth_lessThan:
  fixes xs :: "real list"
  shows "length xs = N \<Longrightarrow> sum_list xs = (\<Sum>n<N. xs ! n)"
  by (simp add: sum_list_sum_nth lessThan_atLeast0)

lemma sum_list_zip_lessThan:
  fixes f :: "'a \<Rightarrow> 'b \<Rightarrow> real"
  assumes "length xs = L" and "length ys = L"
  shows "(\<Sum>(x, y) \<leftarrow> zip xs ys. f x y) = (\<Sum>l<L. f (xs ! l) (ys ! l))"
proof -
  have "(\<Sum>(x, y) \<leftarrow> zip xs ys. f x y) = (\<Sum>l = 0..<L. map (\<lambda>(x, y). f x y) (zip xs ys) ! l)"
    using assms by (simp add: sum_list_sum_nth)
  also have "\<dots> = (\<Sum>l = 0..<L. f (xs ! l) (ys ! l))"
    using assms by (intro sum.cong) simp_all
  finally show ?thesis by (simp add: lessThan_atLeast0)
qed

lemma sum_axes12_nth:
  assumes a: "shape3 S L N a" and s: "s < S"
  shows "sum_axes12 a ! s = (\<Sum>l<L. \<Sum>n<N. a ! s ! l ! n)"
proof -
  have la: "length a = S" using a by (rule shape3_length)
  have pl: "shape2 L N (a ! s)" using a s by (rule shape3_nth)
  have "sum_axes12 a ! s = (\<Sum>l<L. sum_list (a ! s ! l))"
    using la s pl by (simp add: sum_axes12_def sum_list_sum_nth shape2_length lessThan_atLeast0)
  also have "\<dots> = (\<Sum>l<L. \<Sum>n<N. a ! s ! l ! n)"
    using pl by (intro sum.cong refl sum_list_nth_lessThan) (simp add: shape2_nth)
  finally show ?thesis .
qed

lemma length_sum_axes12: "length (sum_axes12 a) = length a"
  by (simp add: sum_axes12_def)

lemma orbs_R_sq_nth:
  assumes ef: "shape4 S L N G ef" and xg: "length xg = G"
    and s: "s < S" and l: "l < L" and n: "n < N" and i: "i < G"
  shows "orbs_R_sq xg ef ! s ! l ! n ! i = (exp (- (xg ! i) / 2) * ef ! s ! l ! n ! i)\<^sup>2"
proof -
  have l0: "length ef = S" using ef by (rule shape4_length)
  have s3: "shape3 L N G (ef ! s)" using ef s by (rule shape4_nth)
  have s2: "shape2 N G (ef ! s ! l)" using s3 l by (rule shape3_nth)
  have l1: "length (ef ! s) = L" using s3 by (rule shape3_length)
  have l2: "length (ef ! s ! l) = N" using s2 by (rule shape2_length)
  have l3: "length (ef ! s ! l ! n) = G" using s2 n by (rule shape2_nth)
  show ?thesis
    using l0 l1 l2 l3 xg s l n i by (simp add: orbs_R_sq_def orbs_R_def mul1_def)
qed

lemma shape4_orbs_R_sq:
  assumes ef: "shape4 S L N G ef" and xg: "length xg = G"
  shows "shape4 S L N G (orbs_R_sq xg ef)"
  using assms
  by (simp add: orbs_R_sq_def orbs_R_def mul1_def shape4_def shape3_def shape2_def shape1_def
      list_all_length)

lemma einsum_nth:
  assumes a: "shape3 S L N a" and b: "shape4 S L N G b" and s: "s < S" and i: "i < g"
  shows "einsum_ijk_ijkl_il g a b ! s ! i = (\<Sum>l<L. \<Sum>n<N. a ! s ! l ! n * b ! s ! l ! n ! i)"
proof -
  have la: "length a = S" using a by (rule shape3_length)
  have lb: "length b = S" using b by (rule shape4_length)
  have pa: "shape2 L N (a ! s)" using a s by (rule shape3_nth)
  have pb: "shape3 L N G (b ! s)" using b s by (rule shape4_nth)
  have "einsum_ijk_ijkl_il g a b ! s ! i =
      (\<Sum>(a_ij, b_ij) \<leftarrow> zip (a ! s) (b ! s). \<Sum>(a_ijk, b_ijk) \<leftarrow> zip a_ij b_ij. a_ijk * b_ijk ! i)"
    using la lb s i by (simp add: einsum_ijk_ijkl_il_def)
  also have "\<dots> = (\<Sum>l<L. \<Sum>(a_ijk, b_ijk) \<leftarrow> zip (a ! s ! l) (b ! s ! l). a_ijk * b_ijk ! i)"
    using pa pb by (intro sum_list_zip_lessThan) (simp_all add: shape2_length shape3_length)
  also have "\<dots> = (\<Sum>l<L. \<Sum>n<N. a ! s ! l ! n * b ! s ! l ! n ! i)"
  proof (intro sum.cong refl)
    fix l assume "l \<in> {..<L}"
    then have l: "l < L" by simp
    have "length (a ! s ! l) = N" using pa l by (rule shape2_nth)
    moreover have "length (b ! s ! l) = N" using shape3_nth [OF pb l] by (rule shape2_length)
    ultimately show "(\<Sum>(a_ijk, b_ijk) \<leftarrow> zip (a ! s ! l) (b ! s ! l). a_ijk * b_ijk ! i)
        = (\<Sum>n<N. a ! s ! l ! n * b ! s ! l ! n ! i)"
      by (rule sum_list_zip_lessThan)
  qed
  finally show ?thesis .
qed

lemma shape2_einsum:
  assumes "length a = S" and "length b = S"
  shows "shape2 S g (einsum_ijk_ijkl_il g a b)"
  using assms by (intro shape2_I) (simp_all add: einsum_ijk_ijkl_il_def)

lemma construct_rho_bound_returns:
  assumes "shape4 (spindims (cfg w)) (lmax (cfg w)) (nmax (cfg w)) (ngrid (cfg w)) (eigfuncs (orbs w))"
    and "shape3 (spindims (cfg w)) (lmax (cfg w)) (nmax (cfg w)) (occnums (orbs w))"
    and "length (xgrid (cfg w)) = ngrid (cfg w)"
  shows "construct_rho_bound w =
     Inr (w\<lparr>dens := (dens w)
             \<lparr>rho_bound := einsum_ijk_ijkl_il (ngrid (cfg w)) (occnums (orbs w))
                             (orbs_R_sq (xgrid (cfg w)) (eigfuncs (orbs w))),
              N_bound := sum_axes12 (occnums (orbs w))\<rparr>\<rparr>)"
  using assms by (simp add: construct_rho_bound_def Let_def)

lemma rho_bound_nth:
  assumes ef: "shape4 S L N G ef" and oc: "shape3 S L N occ" and xg: "length xg = G"
    and s: "s < S" and i: "i < G"
  shows "einsum_ijk_ijkl_il G occ (orbs_R_sq xg ef) ! s ! i =
     (\<Sum>l<L. \<Sum>n<N. occ ! s ! l ! n * (exp (- (xg ! i) / 2) * ef ! s ! l ! n ! i)\<^sup>2)"
proof -
  have "einsum_ijk_ijkl_il G occ (orbs_R_sq xg ef) ! s ! i =
      (\<Sum>l<L. \<Sum>n<N. occ ! s ! l ! n * orbs_R_sq xg ef ! s ! l ! n ! i)"
    using oc shape4_orbs_R_sq [OF ef xg] s i by (rule einsum_nth)
  also have "\<dots> = (\<Sum>l<L. \<Sum>n<N. occ ! s ! l ! n * (exp (- (xg ! i) / 2) * ef ! s ! l ! n ! i)\<^sup>2)"
    by (intro sum.cong refl) (simp add: orbs_R_sq_nth [OF ef xg s _ _ i])
  finally show ?thesis .
qed

text \<open>
  C4: after \<^verbatim>\<open>construct_rho_bound\<close>, on arrays of the configured shape, for every spin
  channel \<open>s\<close> and grid point \<open>i\<close> the entry \<open>rho_bound[s, i]\<close> is the sum over all \<open>(l, n)\<close>
  of \<open>occnums[s, l, n] * (exp (- x\<^sub>i / 2) * P[s, l, n, i])\<^sup>2\<close>, with \<open>P\<close> the stored
  eigenfunctions and \<open>x\<^sub>i\<close> the grid coordinate, and \<open>N_bound[s]\<close> is the sum over all
  \<open>(l, n)\<close> of \<open>occnums[s, l, n]\<close>; the other fields of the state stay as they are.
\<close>

theorem construct_rho_bound_sums:
  assumes ef: "shape4 (spindims (cfg w)) (lmax (cfg w)) (nmax (cfg w)) (ngrid (cfg w)) (eigfuncs (orbs w))"
    and oc: "shape3 (spindims (cfg w)) (lmax (cfg w)) (nmax (cfg w)) (occnums (orbs w))"
    and xg: "length (xgrid (cfg w)) = ngrid (cfg w)"
  shows "\<exists>rb nb. construct_rho_bound w = Inr (w\<lparr>dens := (dens w)\<lparr>rho_bound := rb, N_bound := nb\<rparr>\<rparr>)
           \<and> (\<forall>s<spindims (cfg w). \<forall>i<ngrid (cfg w).
                 rb ! s ! i =
                   (\<Sum>l<lmax (cfg w). \<Sum>n<nmax (cfg w).
                      occnums (orbs w) ! s ! l ! n
                        * (exp (- (xgrid (cfg w) ! i) / 2) * eigfuncs (orbs w) ! s ! l ! n ! i)\<^sup>2))
           \<and> (\<forall>s<spindims (cfg w).
                 nb ! s = (\<Sum>l<lmax (cfg w). \<Sum>n<nmax (cfg w). occnums (orbs w) ! s ! l ! n))"
  using construct_rho_bound_returns [OF assms] rho_bound_nth [OF assms] sum_axes12_nth [OF oc]
  by blast

text \<open>
  In the example the first channel has the occupations \<open>0\<close> and \<open>3 / 2\<close> and the
  amplitudes \<open>1\<close> and \<open>2\<close> at \<open>x = 0\<close>: the density is \<open>3 / 2 * 2\<^sup>2 = 6\<close> and the count
  is \<open>3 / 2\<close>.
\<close>

theorem construct_rho_bound_sums_witness:
  "\<exists>rb nb. construct_rho_bound ex_occupied =
             Inr (ex_occupied\<lparr>dens := (dens ex_occupied)\<lparr>rho_bound := rb, N_bound := nb\<rparr>\<rparr>)
         \<and> rb ! 0 ! 0 = 6 \<and> rb ! 1 ! 0 = 0 \<and> nb ! 0 = 3 / 2 \<and> nb ! 1 = 0"
proof -
  have h: "shape4 (spindims (cfg ex_occupied)) (lmax (cfg ex_occupied)) (nmax (cfg ex_occupied))
             (ngrid (cfg ex_occupied)) (eigfuncs (orbs ex_occupied))"
    "shape3 (spindims (cfg ex_occupied)) (lmax (cfg ex_occupied)) (nmax (cfg ex_occupied))
       (occnums (orbs ex_occupied))"
    "length (xgrid (cfg ex_occupied)) = ngrid (cfg ex_occupied)"
    by (simp_all add: ex_defs)
  from construct_rho_bound_sums [OF h] obtain rb nb where
    r: "construct_rho_bound ex_occupied =
          Inr (ex_occupied\<lparr>dens := (dens ex_occupied)\<lparr>rho_bound := rb, N_bound := nb\<rparr>\<rparr>)"
    and v: "\<And>s i. s < 2 \<Longrightarrow> i < 1 \<Longrightarrow>
              rb ! s ! i =
                (\<Sum>l<2. \<Sum>n<1. [[[0], [3 / 2]], [[0], [0::real]]] ! s ! l ! n
                    * (exp (- ([0] ! i) / 2) * [[[[1]], [[2]]], [[[1]], [[1::real]]]] ! s ! l ! n ! i)\<^sup>2)"
    and c: "\<And>s. s < 2 \<Longrightarrow> nb ! s = (\<Sum>l<2. \<Sum>n<1. [[[0], [3 / 2]], [[0], [0::real]]] ! s ! l ! n)"
    by (auto simp: ex_occupied_def ex_solved_def ex_config_def)
  have "rb ! 0 ! 0 = 6" "rb ! 1 ! 0 = 0" "nb ! 0 = 3 / 2" "nb ! 1 = 0"
    using v [of 0 0] v [of 1 0] c [of 0] c [of 1] by (simp_all add: eval_nat_numeral)
  with r show ?thesis by blast
qed

section \<open>The unbound density\<close>

lemma rho_unbound_loop_Suc:
  "rho_unbound_loop fdi c (Suc k) d =
     (let p = rho_unbound_loop fdi c k d in
      p\<lparr>rho_unbound := (rho_unbound p)[k := map (\<lambda>_. n_ub fdi c k) (rho_unbound p ! k)],
        N_unbound := (N_unbound p)[k := n_ub fdi c k * sph_vol c]\<rparr>)"
  by (simp add: rho_unbound_loop_def Let_def)

lemma rho_unbound_loop_0: "rho_unbound_loop fdi c 0 d = d"
  by (simp add: rho_unbound_loop_def)

lemma rho_unbound_loop_frame:
  "rho_unbound_loop fdi c k d =
     d\<lparr>rho_unbound := rho_unbound (rho_unbound_loop fdi c k d),
       N_unbound := N_unbound (rho_unbound_loop fdi c k d)\<rparr>"
proof (induction k)
  case 0
  show ?case by (simp add: rho_unbound_loop_0)
next
  case (Suc k)
  show ?case
    by (subst (1) rho_unbound_loop_Suc, subst (1) Suc.IH) (simp add: Let_def rho_unbound_loop_Suc)
qed

lemma rho_unbound_loop_lengths:
  "length (rho_unbound (rho_unbound_loop fdi c k d)) = length (rho_unbound d)"
  "length (N_unbound (rho_unbound_loop fdi c k d)) = length (N_unbound d)"
  by (induction k) (simp_all add: rho_unbound_loop_0 rho_unbound_loop_Suc Let_def)

lemma rho_unbound_loop_row:
  "s < length (rho_unbound d) \<Longrightarrow>
   rho_unbound (rho_unbound_loop fdi c k d) ! s =
     (if s < k then map (\<lambda>_. n_ub fdi c s) (rho_unbound d ! s) else rho_unbound d ! s)"
proof (induction k)
  case 0
  show ?case by (simp add: rho_unbound_loop_0)
next
  case (Suc k)
  then show ?case
    using rho_unbound_loop_lengths(1) [of fdi c k d]
    by (auto simp: rho_unbound_loop_Suc Let_def nth_list_update less_Suc_eq)
qed

lemma rho_unbound_loop_count:
  "s < length (N_unbound d) \<Longrightarrow>
   N_unbound (rho_unbound_loop fdi c k d) ! s =
     (if s < k then n_ub fdi c s * sph_vol c else N_unbound d ! s)"
proof (induction k)
  case 0
  show ?case by (simp add: rho_unbound_loop_0)
next
  case (Suc k)
  then show ?case
    using rho_unbound_loop_lengths(2) [of fdi c k d]
    by (auto simp: rho_unbound_loop_Suc Let_def nth_list_update less_Suc_eq)
qed

text \<open>A second run of the loop changes nothing.\<close>

lemma rho_unbound_loop_idem:
  "rho_unbound_loop fdi c k (rho_unbound_loop fdi c k d) = rho_unbound_loop fdi c k d"
proof -
  let ?d1 = "rho_unbound_loop fdi c k d"
  let ?d2 = "rho_unbound_loop fdi c k ?d1"
  have "rho_unbound ?d2 = rho_unbound ?d1"
  proof (rule nth_equalityI)
    show "length (rho_unbound ?d2) = length (rho_unbound ?d1)"
      by (simp add: rho_unbound_loop_lengths)
  next
    fix s assume "s < length (rho_unbound ?d2)"
    then have s: "s < length (rho_unbound d)" "s < length (rho_unbound ?d1)"
      by (simp_all add: rho_unbound_loop_lengths)
    show "rho_unbound ?d2 ! s = rho_unbound ?d1 ! s"
      using rho_unbound_loop_row [OF s(2), of fdi c k] rho_unbound_loop_row [OF s(1), of fdi c k]
      by (simp add: comp_def)
  qed
  moreover have "N_unbound ?d2 = N_unbound ?d1"
  proof (rule nth_equalityI)
    show "length (N_unbound ?d2) = length (N_unbound ?d1)"
      by (simp add: rho_unbound_loop_lengths)
  next
    fix s assume "s < length (N_unbound ?d2)"
    then have s: "s < length (N_unbound d)" "s < length (N_unbound ?d1)"
      by (simp_all add: rho_unbound_loop_lengths)
    show "N_unbound ?d2 ! s = N_unbound ?d1 ! s"
      using rho_unbound_loop_count [OF s(2), of fdi c k] rho_unbound_loop_count [OF s(1), of fdi c k]
      by simp
  qed
  ultimately show ?thesis
    by (subst rho_unbound_loop_frame) simp
qed

lemma construct_rho_unbound_ideal:
  assumes "unbound (cfg w) = ''ideal''"
    and "spindims (cfg w) \<le> length (nele (cfg w))"
    and "spindims (cfg w) \<le> length (mu (cfg w))"
    and "spindims (cfg w) \<le> length (rho_unbound (dens w))"
    and "spindims (cfg w) \<le> length (N_unbound (dens w))"
  shows "construct_rho_unbound fdi w =
     Inr (w\<lparr>dens := rho_unbound_loop fdi (cfg w) (spindims (cfg w)) (dens w)\<rparr>)"
  using assms by (simp add: construct_rho_unbound_def Let_def)

lemma construct_rho_unbound_other:
  "unbound (cfg w) \<noteq> ''ideal'' \<Longrightarrow> construct_rho_unbound fdi w = Inr w"
  by (simp add: construct_rho_unbound_def Let_def)

text \<open>
  With the treatment \<^verbatim>\<open>"ideal"\<close>, and a chemical potential that has an entry for every
  spin channel, every row of \<open>rho_unbound\<close> holds the one value
  \<open>nele[s] / (sqrt 2 * pi\<^sup>2) * fd_int_complete (mu[s], beta, 1 / 2)\<close> and \<open>N_unbound[s]\<close> is
  that value times the sphere volume.
\<close>

lemma rho_unbound_ideal_values:
  assumes id: "unbound (cfg w) = ''ideal''"
    and ne: "spindims (cfg w) \<le> length (nele (cfg w))"
    and mu: "spindims (cfg w) \<le> length (mu (cfg w))"
    and ru: "shape2 (spindims (cfg w)) (ngrid (cfg w)) (rho_unbound (dens w))"
    and nu: "spindims (cfg w) \<le> length (N_unbound (dens w))"
  shows "\<exists>ru nu. construct_rho_unbound fd_int_complete w =
               Inr (w\<lparr>dens := (dens w)\<lparr>rho_unbound := ru, N_unbound := nu\<rparr>\<rparr>)
           \<and> (\<forall>s<spindims (cfg w).
                 (\<forall>i<ngrid (cfg w).
                    ru ! s ! i =
                      nele (cfg w) ! s / (sqrt 2 * pi\<^sup>2)
                        * fd_int_complete (mu (cfg w) ! s) (beta (cfg w)) (1 / 2))
                 \<and> nu ! s =
                      nele (cfg w) ! s / (sqrt 2 * pi\<^sup>2)
                        * fd_int_complete (mu (cfg w) ! s) (beta (cfg w)) (1 / 2) * sph_vol (cfg w))"
proof -
  let ?S = "spindims (cfg w)"
  let ?d = "rho_unbound_loop fd_int_complete (cfg w) ?S (dens w)"
  let ?n = "\<lambda>s. nele (cfg w) ! s / (sqrt 2 * pi\<^sup>2)
                  * fd_int_complete (mu (cfg w) ! s) (beta (cfg w)) (1 / 2)"
  have lru: "length (rho_unbound (dens w)) = ?S" using ru by (rule shape2_length)
  have "construct_rho_unbound fd_int_complete w = Inr (w\<lparr>dens := ?d\<rparr>)"
    using id ne mu lru nu by (simp add: construct_rho_unbound_ideal)
  then have ret: "construct_rho_unbound fd_int_complete w =
      Inr (w\<lparr>dens := (dens w)\<lparr>rho_unbound := rho_unbound ?d, N_unbound := N_unbound ?d\<rparr>\<rparr>)"
    by (subst (asm) rho_unbound_loop_frame)
  have nub: "n_ub fd_int_complete (cfg w) s = ?n s" for s
    by (simp add: n_ub_def Let_def)
  have row: "rho_unbound ?d ! s ! i = ?n s" if "s < ?S" "i < ngrid (cfg w)" for s i
    using that rho_unbound_loop_row [of s "dens w" fd_int_complete "cfg w" ?S]
      lru shape2_nth [OF ru that(1)] nub by simp
  have cnt: "N_unbound ?d ! s = ?n s * sph_vol (cfg w)" if "s < ?S" for s
    using that rho_unbound_loop_count [of s "dens w" fd_int_complete "cfg w" ?S] nu nub by simp
  from ret row cnt show ?thesis by blast
qed


section \<open>The density as a whole\<close>

lemma construct_rho_bound_frame:
  "construct_rho_bound w = Inr w1 \<Longrightarrow>
   cfg w1 = cfg w \<and> orbs w1 = orbs w
   \<and> rho_unbound (dens w1) = rho_unbound (dens w) \<and> N_unbound (dens w1) = N_unbound (dens w)"
  by (auto simp: construct_rho_bound_def Let_def split: if_splits)

lemma construct_rho_unbound_frame:
  assumes "construct_rho_unbound fdi w1 = Inr w2"
  shows "cfg w2 = cfg w1 \<and> orbs w2 = orbs w1
   \<and> rho_bound (dens w2) = rho_bound (dens w1) \<and> N_bound (dens w2) = N_bound (dens w1)"
proof (cases "unbound (cfg w1) = ''ideal''")
  case True
  with assms have "w2 = w1\<lparr>dens := rho_unbound_loop fdi (cfg w1) (spindims (cfg w1)) (dens w1)\<rparr>"
    by (auto simp: construct_rho_unbound_def Let_def split: if_splits)
  then show ?thesis
    by (subst (asm) rho_unbound_loop_frame) simp
next
  case False
  with assms show ?thesis by (simp add: construct_rho_unbound_other)
qed

lemma construct_split:
  "construct fdi w = Inr w' \<Longrightarrow>
   \<exists>w1. construct_rho_bound w = Inr w1 \<and> construct_rho_unbound fdi w1 = Inr w'"
  by (cases "construct_rho_bound w") (simp_all add: construct_def)

lemma construct_frame:
  assumes "construct fdi w = Inr w'"
  shows "cfg w' = cfg w \<and> orbs w' = orbs w"
proof -
  from construct_split [OF assms] obtain w1 where
    b: "construct_rho_bound w = Inr w1" and u: "construct_rho_unbound fdi w1 = Inr w'"
    by blast
  show ?thesis
    using construct_rho_bound_frame [OF b] construct_rho_unbound_frame [OF u] by simp
qed

lemma construct_rho_bound_again:
  assumes b: "construct_rho_bound w = Inr w1"
    and c: "cfg w' = cfg w" and ob: "orbs w' = orbs w"
    and rb: "rho_bound (dens w') = rho_bound (dens w1)"
    and nb: "N_bound (dens w') = N_bound (dens w1)"
  shows "construct_rho_bound w' = Inr w'"
proof -
  from b have ok: "shape4 (spindims (cfg w)) (lmax (cfg w)) (nmax (cfg w)) (ngrid (cfg w)) (eigfuncs (orbs w))"
      "shape3 (spindims (cfg w)) (lmax (cfg w)) (nmax (cfg w)) (occnums (orbs w))"
      "length (xgrid (cfg w)) = ngrid (cfg w)"
    by (auto simp: construct_rho_bound_def Let_def split: if_splits)
  from b have vals:
      "rho_bound (dens w1) = einsum_ijk_ijkl_il (ngrid (cfg w)) (occnums (orbs w))
                               (orbs_R_sq (xgrid (cfg w)) (eigfuncs (orbs w)))"
      "N_bound (dens w1) = sum_axes12 (occnums (orbs w))"
    by (auto simp: construct_rho_bound_def Let_def split: if_splits)
  have "construct_rho_bound w' =
      Inr (w'\<lparr>dens := (dens w')\<lparr>rho_bound := rho_bound (dens w'), N_bound := N_bound (dens w')\<rparr>\<rparr>)"
    using ok c ob rb nb vals by (simp add: construct_rho_bound_def Let_def)
  then show ?thesis by simp
qed

lemma construct_rho_unbound_again:
  assumes u: "construct_rho_unbound fdi w1 = Inr w'"
  shows "construct_rho_unbound fdi w' = Inr w'"
proof (cases "unbound (cfg w1) = ''ideal''")
  case True
  let ?S = "spindims (cfg w1)"
  from u True have ok: "?S \<le> length (nele (cfg w1))" "?S \<le> length (mu (cfg w1))"
      "?S \<le> length (rho_unbound (dens w1))" "?S \<le> length (N_unbound (dens w1))"
    and w': "w' = w1\<lparr>dens := rho_unbound_loop fdi (cfg w1) ?S (dens w1)\<rparr>"
    by (auto simp: construct_rho_unbound_def Let_def split: if_splits)
  have "construct_rho_unbound fdi w' =
      Inr (w'\<lparr>dens := rho_unbound_loop fdi (cfg w') (spindims (cfg w')) (dens w')\<rparr>)"
    by (rule construct_rho_unbound_ideal) (use True ok w' in \<open>simp_all add: rho_unbound_loop_lengths\<close>)
  also have "\<dots> = Inr w'"
    by (simp add: w' rho_unbound_loop_idem)
  finally show ?thesis .
next
  case False
  with u have "w' = w1" by (simp add: construct_rho_unbound_other)
  with False show ?thesis by (simp add: construct_rho_unbound_other)
qed


lemma ex_construct_eval: "construct ex_fd_int_complete ex_occupied = Inr ex_built"
  by (simp add: construct_def construct_rho_bound_def construct_rho_unbound_def Let_def ex_built_def ex_defs
      einsum_ijk_ijkl_il_def orbs_R_sq_def orbs_R_def mul1_def sum_axes12_def
      rho_unbound_loop_def n_ub_def eval_nat_numeral)

text \<open>
  C8: a second call of \<^verbatim>\<open>construct\<close>, on the state the first call returned (the same
  orbitals and configuration), returns that state again: \<open>rho_bound\<close>, \<open>rho_unbound\<close>,
  \<open>N_bound\<close> and \<open>N_unbound\<close> are the same after the second call as after the first.
\<close>

theorem construct_idempotent:
  assumes "construct fd_int_complete w = Inr w'"
  shows "construct fd_int_complete w' = Inr w'"
proof -
  from construct_split [OF assms] obtain w1 where
    b: "construct_rho_bound w = Inr w1" and u: "construct_rho_unbound fd_int_complete w1 = Inr w'"
    by blast
  have "construct_rho_bound w' = Inr w'"
    using b construct_frame [OF assms] construct_rho_unbound_frame [OF u]
    by (intro construct_rho_bound_again [of w w1 w']) simp_all
  moreover have "construct_rho_unbound fd_int_complete w' = Inr w'"
    using u by (rule construct_rho_unbound_again)
  ultimately show ?thesis by (simp add: construct_def)
qed

theorem construct_idempotent_witness:
  "construct ex_fd_int_complete ex_occupied = Inr ex_built
   \<and> construct ex_fd_int_complete ex_built = Inr ex_built"
  using construct_idempotent [OF ex_construct_eval] ex_construct_eval by simp

text \<open>
  C9: \<^verbatim>\<open>construct\<close> does not change the orbitals it is given: after the call the
  eigenfunctions, eigenvalues, occupation numbers and mask are the ones from before.
\<close>

theorem construct_orbitals_unchanged:
  assumes "construct fd_int_complete w = Inr w'"
  shows "eigfuncs (orbs w') = eigfuncs (orbs w) \<and> eigvals (orbs w') = eigvals (orbs w)
       \<and> occnums (orbs w') = occnums (orbs w) \<and> lbound (orbs w') = lbound (orbs w)"
  using construct_frame [OF assms] by simp

theorem construct_orbitals_unchanged_witness:
  "construct ex_fd_int_complete ex_occupied = Inr ex_built
   \<and> eigfuncs (orbs ex_built) = eigfuncs (orbs ex_occupied)
   \<and> eigvals (orbs ex_built) = eigvals (orbs ex_occupied)
   \<and> occnums (orbs ex_built) = occnums (orbs ex_occupied)
   \<and> lbound (orbs ex_built) = lbound (orbs ex_occupied)"
  using construct_orbitals_unchanged [OF ex_construct_eval] ex_construct_eval by simp

section \<open>An unbound treatment without a branch\<close>

lemma ex_unsupported_eval:
  "construct ex_fd_int_complete ex_unsupported =
     Inr (ex_unsupported\<lparr>dens := \<lparr>rho_bound = [[6], [0]], rho_unbound = [[0], [0]],
                                   N_bound = [3 / 2, 0], N_unbound = [0, 0]\<rparr>\<rparr>)"
  by (simp add: construct_def construct_rho_bound_def construct_rho_unbound_def Let_def ex_defs
      ex_unsupported_def einsum_ijk_ijkl_il_def orbs_R_sq_def orbs_R_def mul1_def sum_axes12_def
      eval_nat_numeral)

lemma ex_unsupported_hyps:
  "unbound (cfg ex_unsupported) \<noteq> ''ideal''"
  "shape4 (spindims (cfg ex_unsupported)) (lmax (cfg ex_unsupported)) (nmax (cfg ex_unsupported))
     (ngrid (cfg ex_unsupported)) (eigfuncs (orbs ex_unsupported))"
  "shape3 (spindims (cfg ex_unsupported)) (lmax (cfg ex_unsupported)) (nmax (cfg ex_unsupported))
     (occnums (orbs ex_unsupported))"
  "length (xgrid (cfg ex_unsupported)) = ngrid (cfg ex_unsupported)"
  by (simp_all add: ex_unsupported_def ex_defs)

text \<open>
  C10: for every unbound treatment other than \<^verbatim>\<open>"ideal"\<close>, \<^verbatim>\<open>construct\<close> (on
  arrays of the configured shape) returns without an error; \<open>rho_unbound\<close> and \<open>N_unbound\<close>
  keep the values they had before the call, the configuration and the orbitals are
  untouched, and \<open>rho_bound\<close> and \<open>N_bound\<close> are recomputed: they have the configured shape
  and hold the sums over the orbitals.
\<close>

theorem unsupported_unbound_retained:
  assumes un: "unbound (cfg w) \<noteq> ''ideal''"
    and ef: "shape4 (spindims (cfg w)) (lmax (cfg w)) (nmax (cfg w)) (ngrid (cfg w)) (eigfuncs (orbs w))"
    and oc: "shape3 (spindims (cfg w)) (lmax (cfg w)) (nmax (cfg w)) (occnums (orbs w))"
    and xg: "length (xgrid (cfg w)) = ngrid (cfg w)"
  shows "\<exists>w'. construct fd_int_complete w = Inr w'
           \<and> rho_unbound (dens w') = rho_unbound (dens w)
           \<and> N_unbound (dens w') = N_unbound (dens w)
           \<and> cfg w' = cfg w \<and> orbs w' = orbs w
           \<and> shape2 (spindims (cfg w)) (ngrid (cfg w)) (rho_bound (dens w'))
           \<and> length (N_bound (dens w')) = spindims (cfg w)
           \<and> (\<forall>s<spindims (cfg w).
                 (\<forall>i<ngrid (cfg w).
                    rho_bound (dens w') ! s ! i =
                      (\<Sum>l<lmax (cfg w). \<Sum>n<nmax (cfg w).
                         occnums (orbs w) ! s ! l ! n
                           * (exp (- (xgrid (cfg w) ! i) / 2) * eigfuncs (orbs w) ! s ! l ! n ! i)\<^sup>2))
                 \<and> N_bound (dens w') ! s =
                      (\<Sum>l<lmax (cfg w). \<Sum>n<nmax (cfg w). occnums (orbs w) ! s ! l ! n))"
proof -
  let ?rb = "einsum_ijk_ijkl_il (ngrid (cfg w)) (occnums (orbs w))
               (orbs_R_sq (xgrid (cfg w)) (eigfuncs (orbs w)))"
  let ?nb = "sum_axes12 (occnums (orbs w))"
  let ?w' = "w\<lparr>dens := (dens w)\<lparr>rho_bound := ?rb, N_bound := ?nb\<rparr>\<rparr>"
  have r: "construct fd_int_complete w = Inr ?w'"
    using un construct_rho_bound_returns [OF ef oc xg]
    by (simp add: construct_def construct_rho_unbound_other)
  have sh: "shape2 (spindims (cfg w)) (ngrid (cfg w)) ?rb"
    using oc shape4_orbs_R_sq [OF ef xg]
    by (intro shape2_einsum) (simp_all add: shape3_length shape4_length)
  have ln: "length ?nb = spindims (cfg w)"
    using oc by (simp add: length_sum_axes12 shape3_length)
  show ?thesis
    using r sh ln rho_bound_nth [OF ef oc xg] sum_axes12_nth [OF oc]
    by (intro exI [of _ ?w']) simp
qed

text \<open>
  In the example the density of an earlier call is in place: \<open>rho_bound = 6, 0\<close>,
  \<open>N_bound = 3 / 2, 0\<close> and a non-zero unbound density. With the occupations \<open>1, 1\<close> in the
  first channel the call writes \<open>rho_bound = 5, 0\<close> and \<open>N_bound = 2, 0\<close> and keeps
  the unbound arrays.
\<close>

lemma ex_switched_hyps:
  "unbound (cfg ex_switched) \<noteq> ''ideal''"
  "shape4 (spindims (cfg ex_switched)) (lmax (cfg ex_switched)) (nmax (cfg ex_switched))
     (ngrid (cfg ex_switched)) (eigfuncs (orbs ex_switched))"
  "shape3 (spindims (cfg ex_switched)) (lmax (cfg ex_switched)) (nmax (cfg ex_switched))
     (occnums (orbs ex_switched))"
  "length (xgrid (cfg ex_switched)) = ngrid (cfg ex_switched)"
  by (simp_all add: ex_switched_def ex_built_def ex_defs)

theorem unsupported_unbound_retained_witness:
  "unbound (cfg ex_switched) \<noteq> ''ideal''
   \<and> rho_bound (dens ex_switched) = [[6], [0]] \<and> N_bound (dens ex_switched) = [3 / 2, 0]
   \<and> (\<exists>w'. construct ex_fd_int_complete ex_switched = Inr w'
          \<and> rho_unbound (dens w') = [[1 / (sqrt 2 * pi\<^sup>2) * exp (- 1)], [0]]
          \<and> N_unbound (dens w') = [1 / (sqrt 2 * pi\<^sup>2) * exp (- 1) * 2, 0]
          \<and> rho_bound (dens w') ! 0 ! 0 = 5 \<and> rho_bound (dens w') ! 1 ! 0 = 0
          \<and> N_bound (dens w') ! 0 = 2 \<and> N_bound (dens w') ! 1 = 0)"
proof -
  have d: "spindims (cfg ex_switched) = 2" "lmax (cfg ex_switched) = 2" "nmax (cfg ex_switched) = 1"
    "ngrid (cfg ex_switched) = 1" "xgrid (cfg ex_switched) = [0]"
    "occnums (orbs ex_switched) = [[[1], [1]], [[0], [0]]]"
    "eigfuncs (orbs ex_switched) = [[[[1]], [[2]]], [[[1]], [[1]]]]"
    "rho_unbound (dens ex_switched) = [[1 / (sqrt 2 * pi\<^sup>2) * exp (- 1)], [0]]"
    "N_unbound (dens ex_switched) = [1 / (sqrt 2 * pi\<^sup>2) * exp (- 1) * 2, 0]"
    "rho_bound (dens ex_switched) = [[6], [0]]" "N_bound (dens ex_switched) = [3 / 2, 0]"
    by (simp_all add: ex_switched_def ex_built_def ex_occupied_def ex_solved_def ex_config_def)
  from unsupported_unbound_retained [OF ex_switched_hyps, of ex_fd_int_complete]
  obtain w' where
    r: "construct ex_fd_int_complete ex_switched = Inr w'"
    and u: "rho_unbound (dens w') = [[1 / (sqrt 2 * pi\<^sup>2) * exp (- 1)], [0]]"
      "N_unbound (dens w') = [1 / (sqrt 2 * pi\<^sup>2) * exp (- 1) * 2, 0]"
    and v: "\<forall>s<2. (\<forall>i<1. rho_bound (dens w') ! s ! i =
                (\<Sum>l<2. \<Sum>n<1. [[[1], [1]], [[0], [0::real]]] ! s ! l ! n
                    * (exp (- ([0] ! i) / 2) * [[[[1]], [[2]]], [[[1]], [[1::real]]]] ! s ! l ! n ! i)\<^sup>2))
              \<and> N_bound (dens w') ! s = (\<Sum>l<2. \<Sum>n<1. [[[1], [1]], [[0], [0::real]]] ! s ! l ! n)"
    unfolding d by blast
  have "rho_bound (dens w') ! 0 ! 0 = 5" "rho_bound (dens w') ! 1 ! 0 = 0"
    "N_bound (dens w') ! 0 = 2" "N_bound (dens w') ! 1 = 0"
    using v [rule_format, of 0] v [rule_format, of 1] by (simp_all add: eval_nat_numeral)
  then show ?thesis
    using r u ex_switched_hyps(1) by (simp add: d)
qed

text \<open>
  C1 as stated: with an unbound treatment other than \<^verbatim>\<open>"ideal"\<close>, \<^verbatim>\<open>construct\<close>
  raises an error and leaves the arrays of the density as they were. In the example with
  the treatment \<open>thomas-fermi\<close> it returns normally, and \<open>rho_bound\<close>, zero before the
  call, is \<open>6, 0\<close> after it.
\<close>

theorem unsupported_unbound_counterexample:
  "unbound (cfg ex_unsupported) \<noteq> ''ideal''
   \<and> \<not> isl (construct ex_fd_int_complete ex_unsupported)
   \<and> rho_bound (dens ex_unsupported) = [[0], [0]]
   \<and> rho_bound (dens (projr (construct ex_fd_int_complete ex_unsupported))) = [[6], [0]]"
  by (simp add: ex_unsupported_eval) (simp add: ex_unsupported_def ex_occupied_def ex_solved_def)

text \<open>
  C1 as the code has it: with an unbound treatment other than \<^verbatim>\<open>"ideal"\<close>,
  \<^verbatim>\<open>construct\<close> (on arrays of the configured shape) raises no error; it leaves
  \<open>rho_unbound\<close> and \<open>N_unbound\<close> as they were and overwrites \<open>rho_bound\<close> and
  \<open>N_bound\<close> with the sums over the orbitals.
\<close>

theorem unsupported_unbound_no_error:
  assumes un: "unbound (cfg w) \<noteq> ''ideal''"
    and ef: "shape4 (spindims (cfg w)) (lmax (cfg w)) (nmax (cfg w)) (ngrid (cfg w)) (eigfuncs (orbs w))"
    and oc: "shape3 (spindims (cfg w)) (lmax (cfg w)) (nmax (cfg w)) (occnums (orbs w))"
    and xg: "length (xgrid (cfg w)) = ngrid (cfg w)"
  shows "\<not> isl (construct fd_int_complete w)
       \<and> rho_unbound (dens (projr (construct fd_int_complete w))) = rho_unbound (dens w)
       \<and> N_unbound (dens (projr (construct fd_int_complete w))) = N_unbound (dens w)
       \<and> (\<forall>s<spindims (cfg w).
             (\<forall>i<ngrid (cfg w).
                rho_bound (dens (projr (construct fd_int_complete w))) ! s ! i =
                  (\<Sum>l<lmax (cfg w). \<Sum>n<nmax (cfg w).
                     occnums (orbs w) ! s ! l ! n
                       * (exp (- (xgrid (cfg w) ! i) / 2) * eigfuncs (orbs w) ! s ! l ! n ! i)\<^sup>2))
             \<and> N_bound (dens (projr (construct fd_int_complete w))) ! s =
                  (\<Sum>l<lmax (cfg w). \<Sum>n<nmax (cfg w). occnums (orbs w) ! s ! l ! n))"
proof -
  let ?w1 = "w\<lparr>dens := (dens w)
             \<lparr>rho_bound := einsum_ijk_ijkl_il (ngrid (cfg w)) (occnums (orbs w))
                             (orbs_R_sq (xgrid (cfg w)) (eigfuncs (orbs w))),
              N_bound := sum_axes12 (occnums (orbs w))\<rparr>\<rparr>"
  have r: "construct fd_int_complete w = Inr ?w1"
    using un construct_rho_bound_returns [OF ef oc xg]
    by (simp add: construct_def construct_rho_unbound_other)
  show ?thesis
    unfolding r using rho_bound_nth [OF ef oc xg] sum_axes12_nth [OF oc] by simp
qed

theorem unsupported_unbound_no_error_witness:
  "unbound (cfg ex_unsupported) \<noteq> ''ideal''
   \<and> \<not> isl (construct ex_fd_int_complete ex_unsupported)
   \<and> rho_unbound (dens (projr (construct ex_fd_int_complete ex_unsupported))) = [[0], [0]]
   \<and> N_unbound (dens (projr (construct ex_fd_int_complete ex_unsupported))) = [0, 0]
   \<and> N_bound (dens (projr (construct ex_fd_int_complete ex_unsupported))) ! 0 = 3 / 2"
proof -
  note t = unsupported_unbound_no_error [OF ex_unsupported_hyps, of ex_fd_int_complete]
  have "spindims (cfg ex_unsupported) = 2" "lmax (cfg ex_unsupported) = 2" "nmax (cfg ex_unsupported) = 1"
    "occnums (orbs ex_unsupported) = [[[0], [3 / 2]], [[0], [0]]]"
    "rho_unbound (dens ex_unsupported) = [[0], [0]]" "N_unbound (dens ex_unsupported) = [0, 0]"
    by (simp_all add: ex_unsupported_def ex_occupied_def ex_solved_def ex_config_def)
  then show ?thesis
    using t ex_unsupported_hyps(1) by (auto simp: eval_nat_numeral)
qed

section \<open>Calls out of order\<close>







end
